theory Spec2Isabelle
  imports Main "HOL-Library.Log_Nat" "HOL-Library.Sublist"
begin

section \<open>JavaScript numbers\<close>

text \<open>
  A JavaScript Number is an IEEE-754 binary64 value.  The finite ones are modelled by the
  rational they denote, the three special values by constructors of their own.  The two
  zeros are identified: they compare equal in JavaScript and in the store, and both are
  printed as 0.  Arithmetic rounds the exact result to the nearest binary64 value, ties to
  the even significand, and overflows to an infinity.
\<close>

datatype jsnum = NaN | PosInf | NegInf | Fin rat

definition ilog2 :: "rat \<Rightarrow> int" where
  \<comment> \<open>for \<open>0 < x\<close>: the exponent \<open>e\<close> with \<open>2 powi e \<le> x < 2 powi (e + 1)\<close>\<close>
  "ilog2 x =
     (let p = fst (quotient_of x); q = snd (quotient_of x); k = bitlen p - bitlen q
      in if of_int q * 2 powi k \<le> (of_int p :: rat) then k else k - 1)"

definition round_half_even :: "rat \<Rightarrow> int" where
  "round_half_even x =
     (let f = \<lfloor>x\<rfloor>; d = x - of_int f
      in if d < 1 / 2 then f else if 1 / 2 < d then f + 1 else if even f then f else f + 1)"

definition double_overflow :: rat where
  \<comment> \<open>\<open>2 ^ 1024\<close>, the least magnitude that no longer rounds to a finite value\<close>
  "double_overflow = 179769313486231590772930519078902473361797697894230657273430081157732675805500963132708477322407536021120113879871393357658789768814416622492847430639474124377767893424865485276302219601246094119453082952085005768838150682342462881473913110540827237163350510684586298239947245938479716304835356329624224137216"

definition round_double :: "rat \<Rightarrow> jsnum" where
  \<comment> \<open>53 significant bits, least exponent \<open>-1074\<close>, overflow from \<open>2 ^ 1024\<close> on\<close>
  "round_double x =
     (if x = 0 then Fin 0
      else
        let e = max (ilog2 \<bar>x\<bar> - 52) (- 1074);
            r = of_int (round_half_even (x / 2 powi e)) * 2 powi e
        in if double_overflow \<le> \<bar>r\<bar> then (if 0 < x then PosInf else NegInf) else Fin r)"

fun js_add :: "jsnum \<Rightarrow> jsnum \<Rightarrow> jsnum" where
  "js_add NaN _ = NaN"
| "js_add _ NaN = NaN"
| "js_add PosInf NegInf = NaN"
| "js_add NegInf PosInf = NaN"
| "js_add PosInf _ = PosInf"
| "js_add _ PosInf = PosInf"
| "js_add NegInf _ = NegInf"
| "js_add _ NegInf = NegInf"
| "js_add (Fin a) (Fin b) = round_double (a + b)"

fun js_le :: "jsnum \<Rightarrow> jsnum \<Rightarrow> bool" where
  \<comment> \<open>the operator \<open><=\<close>: false as soon as one side is NaN\<close>
  "js_le NaN _ = False"
| "js_le _ NaN = False"
| "js_le NegInf _ = True"
| "js_le _ PosInf = True"
| "js_le PosInf _ = False"
| "js_le _ NegInf = False"
| "js_le (Fin a) (Fin b) = (a \<le> b)"

definition isNaN :: "jsnum \<Rightarrow> bool" where
  "isNaN x = (x = NaN)"

section \<open>Strings read as numbers\<close>

text \<open>
  Strings are ASCII text, one \<open>char\<close> per character.  \<open>parseFloat\<close> reads the longest
  prefix that is a decimal literal, \<open>Number\<close> wants the whole trimmed string to be a
  numeric literal (and reads the empty string as 0), \<open>parseInt\<close> reads the longest
  leading run of digits after an optional sign.
\<close>

definition is_digit :: "char \<Rightarrow> bool" where
  "is_digit c = (c \<in> set ''0123456789'')"

definition is_space :: "char \<Rightarrow> bool" where
  \<comment> \<open>tab, line feed, vertical tab, form feed, carriage return, space and no-break space:
      the white space and line terminators of the language below 256\<close>
  "is_space c =
     (c \<in> {CHR '' '', CHR 0x09, CHR 0x0A, CHR 0x0B, CHR 0x0C, CHR 0x0D, CHR 0xA0})"

definition hex_val :: "char \<Rightarrow> int option" where
  "hex_val c =
     (let n = (of_char c :: int)
      in if 48 \<le> n \<and> n \<le> 57 then Some (n - 48)
         else if 97 \<le> n \<and> n \<le> 102 then Some (n - 87)
         else if 65 \<le> n \<and> n \<le> 70 then Some (n - 55)
         else None)"

definition digit_in :: "int \<Rightarrow> char \<Rightarrow> bool" where
  "digit_in radix c = (case hex_val c of None \<Rightarrow> False | Some v \<Rightarrow> v < radix)"

definition digits_val :: "int \<Rightarrow> string \<Rightarrow> int" where
  "digits_val radix ds =
     foldl (\<lambda>a c. radix * a + (case hex_val c of None \<Rightarrow> 0 | Some v \<Rightarrow> v)) 0 ds"

definition trim_start :: "string \<Rightarrow> string" where
  "trim_start s = dropWhile is_space s"

definition trim :: "string \<Rightarrow> string" where
  "trim s = rev (dropWhile is_space (rev (dropWhile is_space s)))"

definition parse_sign :: "string \<Rightarrow> bool \<times> string" where
  \<comment> \<open>an optional \<open>+\<close> or \<open>-\<close>; the flag says the sign is negative\<close>
  "parse_sign s =
     (case s of
        [] \<Rightarrow> (False, s)
      | c # cs \<Rightarrow>
          if c = CHR ''-'' then (True, cs) else if c = CHR ''+'' then (False, cs) else (False, s))"

definition parse_exponent :: "string \<Rightarrow> int \<times> string" where
  \<comment> \<open>an optional exponent part: \<open>e\<close> or \<open>E\<close>, an optional sign, at least one digit\<close>
  "parse_exponent s =
     (case s of
        [] \<Rightarrow> (0, s)
      | c # cs \<Rightarrow>
          if c = CHR ''e'' \<or> c = CHR ''E'' then
            (let neg = fst (parse_sign cs); r = snd (parse_sign cs); ds = takeWhile is_digit r
             in if ds = [] then (0, s)
                else ((if neg then - digits_val 10 ds else digits_val 10 ds),
                      dropWhile is_digit r))
          else (0, s))"

definition unsigned_decimal :: "string \<Rightarrow> (rat \<times> string) option" where
  \<comment> \<open>digits, then optionally a dot and digits (one of the two runs non-empty), then an
      optional exponent part; the value read and the rest of the string\<close>
  "unsigned_decimal s =
     (let ip = takeWhile is_digit s; r1 = dropWhile is_digit s
      in if r1 \<noteq> [] \<and> hd r1 = CHR ''.'' then
           (let fp = takeWhile is_digit (tl r1); r3 = dropWhile is_digit (tl r1)
            in if ip = [] \<and> fp = [] then None
               else Some ((of_int (digits_val 10 ip)
                             + of_int (digits_val 10 fp) / 10 ^ length fp)
                            * 10 powi fst (parse_exponent r3),
                          snd (parse_exponent r3)))
         else if ip = [] then None
         else Some (of_int (digits_val 10 ip) * 10 powi fst (parse_exponent r1),
                    snd (parse_exponent r1)))"

definition str_decimal_literal :: "string \<Rightarrow> (jsnum \<times> string) option" where
  "str_decimal_literal s =
     (let neg = fst (parse_sign s); r = snd (parse_sign s)
      in if take 8 r = ''Infinity'' then Some (if neg then NegInf else PosInf, drop 8 r)
         else case unsigned_decimal r of
                None \<Rightarrow> None
              | Some (v, rest) \<Rightarrow> Some (round_double (if neg then - v else v), rest))"


definition radix_literal :: "string \<Rightarrow> jsnum option" where
  \<comment> \<open>\<open>0x\<close>, \<open>0o\<close> and \<open>0b\<close> literals (either case of the letter), unsigned\<close>
  "radix_literal s =
     (if length s < 2 \<or> hd s \<noteq> CHR ''0'' then None
      else
        let radix = (if s ! 1 \<in> set ''xX'' then 16 else if s ! 1 \<in> set ''oO'' then 8
                     else if s ! 1 \<in> set ''bB'' then 2 else 0);
            ds = drop 2 s
        in if radix = 0 then None
           else if ds \<noteq> [] \<and> list_all (digit_in radix) ds
             then Some (round_double (of_int (digits_val radix ds)))
           else Some NaN)"

definition Number :: "string \<Rightarrow> jsnum" where
  "Number s =
     (let t = trim s
      in if t = [] then Fin 0
         else case radix_literal t of
                Some v \<Rightarrow> v
              | None \<Rightarrow>
                 (case str_decimal_literal t of
                    Some (v, []) \<Rightarrow> v
                  | _ \<Rightarrow> NaN))"

definition parseInt :: "string \<Rightarrow> int option" where
  \<comment> \<open>no radix given: base 10, or 16 after \<open>0x\<close>; \<open>None\<close> is NaN.  The integer read is
      returned unrounded: rounding is monotone and keeps 1 and 12, so the comparisons of
      the month check do not see it.\<close>
  "parseInt s =
     (let neg = fst (parse_sign (trim_start s)); r = snd (parse_sign (trim_start s));
          hex = (take 2 r = ''0x'' \<or> take 2 r = ''0X'');
          radix = (if hex then 16 else 10);
          ds = takeWhile (digit_in radix) (if hex then drop 2 r else r)
      in if ds = [] then None
         else Some (if neg then - digits_val radix ds else digits_val radix ds))"

section \<open>Text search in the store\<close>

text \<open>
  The query operator \<open>$regex\<close> with option \<open>i\<close> searches the field for an unanchored,
  case-insensitive match of the pattern.  The embedding interprets the patterns made of
  ASCII characters that are literal in a regular expression, and of the dot, which stands
  for any character but a line feed.  Every other pattern is handed to the store's engine,
  a parameter of the model: it answers with the compiled matcher, or with nothing when it
  rejects the pattern.
\<close>

definition to_lower :: "char \<Rightarrow> char" where
  "to_lower c =
     (if 65 \<le> (of_char c :: nat) \<and> (of_char c :: nat) \<le> 90 then char_of (of_char c + 32 :: nat)
      else c)"

definition regex_meta :: "char \<Rightarrow> bool" where
  \<comment> \<open>backslash, the characters with a meaning of their own in a pattern, NUL, and what
      is not ASCII\<close>
  "regex_meta c =
     (c \<in> set [CHR 0x5C, CHR ''^'', CHR ''$'', CHR ''.'', CHR ''['', CHR ''|'', CHR ''('',
                CHR '')'', CHR ''?'', CHR ''*'', CHR ''+'', CHR ''{'', CHR 0x00]
      \<or> 128 \<le> (of_char c :: nat))"

fun match_here :: "string \<Rightarrow> string \<Rightarrow> bool" where
  "match_here [] s = True"
| "match_here (p # ps) [] = False"
| "match_here (p # ps) (c # cs) =
     ((if p = CHR ''.'' then c \<noteq> CHR 0x0A else to_lower p = to_lower c) \<and> match_here ps cs)"

fun regex_find :: "string \<Rightarrow> string \<Rightarrow> bool" where
  "regex_find pat [] = match_here pat []"
| "regex_find pat (c # cs) = (match_here pat (c # cs) \<or> regex_find pat cs)"


section \<open>Dates\<close>

text \<open>
  A Date is its time value: milliseconds since 1970-01-01T00:00:00Z.  An invalid Date is
  \<open>None\<close>.  Days are counted in the proleptic Gregorian calendar.
\<close>

definition msPerDay :: int where
  "msPerDay = 86400000"

definition days_from_civil :: "int \<Rightarrow> int \<Rightarrow> int \<Rightarrow> int" where
  \<comment> \<open>the day number of year \<open>y\<close>, month \<open>m\<close> (from 1), day \<open>d\<close> (from 1)\<close>
  "days_from_civil y m d =
     (let y' = (if m \<le> 2 then y - 1 else y);
          era = y' div 400;
          yoe = y' - era * 400;
          doy = (153 * (if 2 < m then m - 3 else m + 9) + 2) div 5 + d - 1;
          doe = yoe * 365 + yoe div 4 - yoe div 100 + doy
      in era * 146097 + doe - 719468)"

definition civil_from_days :: "int \<Rightarrow> int \<times> int \<times> int" where
  \<comment> \<open>year, month (from 1) and day of the month (from 1) of a day number\<close>
  "civil_from_days z =
     (let z' = z + 719468;
          era = z' div 146097;
          doe = z' - era * 146097;
          yoe = (doe - doe div 1460 + doe div 36524 - doe div 146096) div 365;
          doy = doe - (365 * yoe + yoe div 4 - yoe div 100);
          mp = (5 * doy + 2) div 153;
          d = doy - (153 * mp + 2) div 5 + 1;
          m = (if mp < 10 then mp + 3 else mp - 9);
          y = yoe + era * 400
      in (if m \<le> 2 then y + 1 else y, m, d))"

record env =
  localTZA :: int
  legacyDate :: "string \<Rightarrow> int option"
  storeRegex :: "string \<Rightarrow> (string \<Rightarrow> bool) option"

text \<open>
  The environment of the server: \<open>localTZA\<close> is the offset of its local time zone from
  UTC in milliseconds (a zone of fixed offset: no daylight saving), \<open>legacyDate\<close> is what
  the Date constructor makes of a string that is not in the ISO format (the language
  leaves it to the implementation), \<open>storeRegex\<close> is the store's regular expression
  engine on the patterns the embedding does not interpret.
\<close>

definition newDate :: "env \<Rightarrow> string \<Rightarrow> int option" where
  \<comment> \<open>\<open>new Date(s)\<close>: a date-only ISO string \<open>YYYY-MM-DD\<close> that names a day of the
      calendar is midnight UTC of that day; any other string is left to the implementation\<close>
  "newDate e s =
     (if length s = 10 \<and> list_all is_digit (take 4 s @ take 2 (drop 5 s) @ drop 8 s)
         \<and> s ! 4 = CHR ''-'' \<and> s ! 7 = CHR ''-''
         \<and> civil_from_days (days_from_civil (digits_val 10 (take 4 s))
               (digits_val 10 (take 2 (drop 5 s))) (digits_val 10 (drop 8 s)))
             = (digits_val 10 (take 4 s), digits_val 10 (take 2 (drop 5 s)),
                digits_val 10 (drop 8 s))
      then Some (days_from_civil (digits_val 10 (take 4 s))
                   (digits_val 10 (take 2 (drop 5 s))) (digits_val 10 (drop 8 s)) * msPerDay)
      else legacyDate e s)"

definition getMonth :: "env \<Rightarrow> int \<Rightarrow> int" where
  \<comment> \<open>the month of the local time, from 0\<close>
  "getMonth e t = fst (snd (civil_from_days ((t + localTZA e) div msPerDay))) - 1"

definition setMonth :: "env \<Rightarrow> int \<Rightarrow> int \<Rightarrow> int" where
  \<comment> \<open>the local time with its month replaced (a month from 12 on runs into the next
      years, a day the month does not have runs into the next month), as a time value\<close>
  "setMonth e t mo =
     (let lt = t + localTZA e;
          y = fst (civil_from_days (lt div msPerDay));
          d = snd (snd (civil_from_days (lt div msPerDay)));
          day = days_from_civil (y + mo div 12) (mo mod 12 + 1) 1 + d - 1
      in day * msPerDay + lt mod msPerDay - localTZA e)"

section \<open>The records and the requests\<close>

record 'p transaction_fields =
  title :: string
  description :: string
  price :: 'p
  category :: string
  sold :: bool
  dateOfSale :: int

type_synonym transaction = "jsnum transaction_fields"



datatype error = InvalidParameter | CastError | StoreFailure | UpstreamFetchFailure
  | DownstreamCallFailure

text \<open>
  What a handler throws before its \<open>catch\<close> turns it into the response of status 500:
  \<open>InvalidParameter\<close> is the error of the month check, \<open>CastError\<close> the refusal of an
  invalid Date in a query, \<open>StoreFailure\<close> a query the store rejects,
  \<open>UpstreamFetchFailure\<close> the seed that could not be fetched, \<open>DownstreamCallFailure\<close>
  a request of the combined view that was answered with an error status.
\<close>

subsection \<open>The seed\<close>




subsection \<open>The month and its window\<close>

definition invalid_month :: "string option \<Rightarrow> bool" where
  "invalid_month month =
     (case month of
        None \<Rightarrow> True
      | Some m \<Rightarrow>
          m = [] \<or> (case parseInt m of None \<Rightarrow> True | Some n \<Rightarrow> n < 1 \<or> 12 < n))"

definition padStart2 :: "string \<Rightarrow> string" where
  \<comment> \<open>\<open>month.padStart(2, '0')\<close>\<close>
  "padStart2 m = replicate (2 - length m) CHR ''0'' @ m"

definition monthWindow :: "env \<Rightarrow> string option \<Rightarrow> error + int \<times> int" where
  \<comment> \<open>the month check and the two dates, as each of the four handlers computes them\<close>
  "monthWindow e month =
     (case month of
        None \<Rightarrow> Inl InvalidParameter
      | Some m \<Rightarrow>
          if invalid_month (Some m) then Inl InvalidParameter
          else
            (case newDate e (''2021-'' @ padStart2 m @ ''-01'') of
               None \<Rightarrow> Inl CastError
             | Some startDate \<Rightarrow>
                 Inr (startDate, setMonth e startDate (getMonth e startDate + 1))))"

definition in_window :: "int \<times> int \<Rightarrow> 'p transaction_fields \<Rightarrow> bool" where
  \<comment> \<open>\<open>dateOfSale: { $gte: startDate, $lt: endDate }\<close>\<close>
  "in_window w t = (fst w \<le> dateOfSale t \<and> dateOfSale t < snd w)"

subsection \<open>Listing\<close>

datatype clause = TitleRegex string | DescriptionRegex string | PriceEquals jsnum

record query =
  dateRange :: "int \<times> int"
  or_clauses :: "clause list"

definition build_query :: "int \<times> int \<Rightarrow> string \<Rightarrow> query" where
  \<comment> \<open>the query object, with the price clause pushed when \<open>!isNaN(search)\<close>\<close>
  "build_query w search =
     (let q = \<lparr>dateRange = w, or_clauses = [TitleRegex search, DescriptionRegex search]\<rparr>
      in if \<not> isNaN (Number search)
         then q\<lparr>or_clauses := or_clauses q @ [PriceEquals (Number search)]\<rparr>
         else q)"

definition compile_regex :: "env \<Rightarrow> string \<Rightarrow> (string \<Rightarrow> bool) option" where
  "compile_regex e pat =
     (if list_all (\<lambda>c. \<not> regex_meta c \<or> c = CHR ''.'') pat then Some (regex_find pat)
      else storeRegex e pat)"

definition clause_compiles :: "env \<Rightarrow> clause \<Rightarrow> bool" where
  "clause_compiles e c =
     (case c of
        TitleRegex pat \<Rightarrow> compile_regex e pat \<noteq> None
      | DescriptionRegex pat \<Rightarrow> compile_regex e pat \<noteq> None
      | PriceEquals v \<Rightarrow> True)"

definition clause_holds :: "env \<Rightarrow> clause \<Rightarrow> transaction \<Rightarrow> bool" where
  "clause_holds e c t =
     (case c of
        TitleRegex pat \<Rightarrow>
          (case compile_regex e pat of None \<Rightarrow> False | Some matches \<Rightarrow> matches (title t))
      | DescriptionRegex pat \<Rightarrow>
          (case compile_regex e pat of None \<Rightarrow> False | Some matches \<Rightarrow> matches (description t))
      | PriceEquals v \<Rightarrow> price t = v)"

definition query_accepts :: "env \<Rightarrow> query \<Rightarrow> transaction \<Rightarrow> bool" where
  \<comment> \<open>the date range, and one of the clauses under \<open>$or\<close>\<close>
  "query_accepts e q t = (in_window (dateRange q) t \<and> list_ex (\<lambda>c. clause_holds e c t) (or_clauses q))"

definition find_query :: "env \<Rightarrow> query \<Rightarrow> transaction list \<Rightarrow> error + transaction list" where
  \<comment> \<open>the records the query accepts, in the order of the store\<close>
  "find_query e q store =
     (if list_all (clause_compiles e) (or_clauses q) then Inr (filter (query_accepts e q) store)
      else Inl StoreFailure)"

definition skip_limit :: "int \<Rightarrow> int \<Rightarrow> 'a list \<Rightarrow> error + 'a list" where
  \<comment> \<open>\<open>.skip(n).limit(l)\<close>: the store rejects a negative skip, reads the limit 0 as no
      limit and a negative limit as its absolute value\<close>
  "skip_limit n l xs =
     (if n < 0 then Inl StoreFailure
      else if l = 0 then Inr (drop (nat n) xs)
      else Inr (take (nat \<bar>l\<bar>) (drop (nat n) xs)))"

definition ceil_ratio :: "nat \<Rightarrow> int \<Rightarrow> jsnum" where
  \<comment> \<open>\<open>Math.ceil(total / perPage)\<close>; the quotient of two integers below \<open>2 ^ 53\<close> is
      rounded to a double that has the ceiling of the exact quotient\<close>
  "ceil_ratio n pp =
     (if pp = 0 then (if n = 0 then NaN else PosInf)
      else Fin (of_int (- ((- int n) div pp))))"

record listing =
  transactions :: "transaction list"
  total :: nat
  page :: int
  perPage :: int
  totalPages :: jsnum

definition getTransactions ::
  "env \<Rightarrow> transaction list \<Rightarrow> string option \<Rightarrow> int \<Rightarrow> int \<Rightarrow> string \<Rightarrow> error + listing" where
  \<comment> \<open>the arguments after the month: the numbers the page and the page size stand for,
      and the search string\<close>
  "getTransactions e store month pg pp search =
     (case monthWindow e month of
        Inl err \<Rightarrow> Inl err
      | Inr w \<Rightarrow>
          (case find_query e (build_query w search) store of
             Inl err \<Rightarrow> Inl err
           | Inr matching \<Rightarrow>
               (case skip_limit ((pg - 1) * pp) pp matching of
                  Inl err \<Rightarrow> Inl err
                | Inr found \<Rightarrow>
                    Inr \<lparr>transactions = found, total = length matching, page = pg,
                         perPage = pp, totalPages = ceil_ratio (length matching) pp\<rparr>)))"

subsection \<open>Statistics\<close>

record statistics =
  totalSaleAmount :: jsnum
  totalSoldItems :: nat
  totalNotSoldItems :: nat

definition getStatistics :: "env \<Rightarrow> transaction list \<Rightarrow> string option \<Rightarrow> error + statistics" where
  "getStatistics e store month =
     (case monthWindow e month of
        Inl err \<Rightarrow> Inl err
      | Inr w \<Rightarrow>
          (let ts = filter (in_window w) store
           in Inr \<lparr>totalSaleAmount = foldl (\<lambda>acc t. js_add acc (price t)) (Fin 0) ts,
                   totalSoldItems = length (filter (\<lambda>t. sold t) ts),
                   totalNotSoldItems = length (filter (\<lambda>t. \<not> sold t) ts)\<rparr>))"

subsection \<open>Objects used as counters\<close>

text \<open>
  An object made by \<open>{}\<close> maps its own keys to numbers and inherits the members of
  \<open>Object.prototype\<close>.  A counter is a natural number or NaN (counting stays exact far
  beyond any number of records).  Reading a key gives the own value, else the inherited
  member, else \<open>undefined\<close>; writing makes an own property, but for \<open>__proto__\<close>, whose
  setter ignores a number.
\<close>

datatype counter = Count nat | CountNaN

type_synonym object = "string \<rightharpoonup> counter"

datatype property = Undefined | Own counter | Inherited

definition prototype_members :: "string list" where
  "prototype_members =
     [''constructor'', ''__defineGetter__'', ''__defineSetter__'', ''hasOwnProperty'',
      ''__lookupGetter__'', ''__lookupSetter__'', ''isPrototypeOf'', ''propertyIsEnumerable'',
      ''toString'', ''valueOf'', ''__proto__'', ''toLocaleString'']"

definition get_property :: "object \<Rightarrow> string \<Rightarrow> property" where
  "get_property obj k =
     (case obj k of
        Some v \<Rightarrow> Own v
      | None \<Rightarrow> if k \<in> set prototype_members then Inherited else Undefined)"

definition set_property :: "object \<Rightarrow> string \<Rightarrow> counter \<Rightarrow> object" where
  "set_property obj k v = (if k = ''__proto__'' then obj else obj(k \<mapsto> v))"

definition truthy :: "property \<Rightarrow> bool" where
  "truthy p =
     (case p of Undefined \<Rightarrow> False | Own (Count n) \<Rightarrow> n \<noteq> 0 | Own CountNaN \<Rightarrow> False
      | Inherited \<Rightarrow> True)"

definition increment :: "object \<Rightarrow> string \<Rightarrow> object" where
  \<comment> \<open>\<open>obj[k]++\<close>: what is not a number counts on from NaN\<close>
  "increment obj k =
     set_property obj k
       (case get_property obj k of Own (Count n) \<Rightarrow> Count (n + 1) | _ \<Rightarrow> CountNaN)"

subsection \<open>The bar chart\<close>

definition range_keys :: "string list" where
  "range_keys =
     [''0-100'', ''101-200'', ''201-300'', ''301-400'', ''401-500'', ''501-600'', ''601-700'',
      ''701-800'', ''801-900'', ''901-above'']"

definition priceRanges0 :: object where
  \<comment> \<open>the object literal: the ten keys, each at 0\<close>
  "priceRanges0 = map_of (map (\<lambda>k. (k, Count 0)) range_keys)"

definition range_key :: "jsnum \<Rightarrow> string" where
  "range_key p =
     (if js_le p (Fin 100) then ''0-100''
      else if js_le p (Fin 200) then ''101-200''
      else if js_le p (Fin 300) then ''201-300''
      else if js_le p (Fin 400) then ''301-400''
      else if js_le p (Fin 500) then ''401-500''
      else if js_le p (Fin 600) then ''501-600''
      else if js_le p (Fin 700) then ''601-700''
      else if js_le p (Fin 800) then ''701-800''
      else if js_le p (Fin 900) then ''801-900''
      else ''901-above'')"

definition getBarChartData :: "env \<Rightarrow> transaction list \<Rightarrow> string option \<Rightarrow> error + object" where
  "getBarChartData e store month =
     (case monthWindow e month of
        Inl err \<Rightarrow> Inl err
      | Inr w \<Rightarrow>
          Inr (foldl (\<lambda>obj t. increment obj (range_key (price t))) priceRanges0
                 (filter (in_window w) store)))"

subsection \<open>The pie chart\<close>

definition count_category :: "object \<Rightarrow> transaction \<Rightarrow> object" where
  \<comment> \<open>the body of the loop over the records\<close>
  "count_category categories t =
     increment
       (if \<not> truthy (get_property categories (category t))
        then set_property categories (category t) (Count 0)
        else categories)
       (category t)"

definition getPieChartData :: "env \<Rightarrow> transaction list \<Rightarrow> string option \<Rightarrow> error + object" where
  "getPieChartData e store month =
     (case monthWindow e month of
        Inl err \<Rightarrow> Inl err
      | Inr w \<Rightarrow> Inr (foldl count_category Map.empty (filter (in_window w) store)))"

subsection \<open>The combined view\<close>

record combined =
  transactionsData :: listing
  statisticsData :: statistics
  barChart :: object
  pieChart :: object

text \<open>
  The combined view asks the four other handlers of the same server, over HTTP, with the
  padded month; a request answered with status 500 makes the client throw.  The store is
  the same for the four requests.
\<close>

definition downstream :: "error + 'a \<Rightarrow> error + 'a" where
  "downstream r = (case r of Inl err \<Rightarrow> Inl DownstreamCallFailure | Inr v \<Rightarrow> Inr v)"

definition getCombinedData ::
  "env \<Rightarrow> transaction list \<Rightarrow> string option \<Rightarrow> string \<Rightarrow> int \<Rightarrow> int \<Rightarrow> error + combined" where
  "getCombinedData e store month search pg pp =
     (case month of
        None \<Rightarrow> Inl InvalidParameter
      | Some m \<Rightarrow>
          if invalid_month (Some m) then Inl InvalidParameter
          else
            (case downstream (getTransactions e store (Some (padStart2 m)) pg pp search) of
               Inl err \<Rightarrow> Inl err
             | Inr tr \<Rightarrow>
            (case downstream (getStatistics e store (Some (padStart2 m))) of
               Inl err \<Rightarrow> Inl err
             | Inr st \<Rightarrow>
            (case downstream (getBarChartData e store (Some (padStart2 m))) of
               Inl err \<Rightarrow> Inl err
             | Inr bar \<Rightarrow>
            (case downstream (getPieChartData e store (Some (padStart2 m))) of
               Inl err \<Rightarrow> Inl err
             | Inr pie \<Rightarrow>
                 Inr \<lparr>transactionsData = tr, statisticsData = st, barChart = bar,
                      pieChart = pie\<rparr>)))))"

definition counter_nat :: "counter option \<Rightarrow> nat" where
  \<comment> \<open>the count under a key, read as a natural number\<close>
  "counter_nat c = (case c of Some (Count n) \<Rightarrow> n | _ \<Rightarrow> 0)"

section \<open>The words of the specification\<close>

text \<open>
  What the specification says in its own terms, to compare the program with.
\<close>

definition page_slice :: "int \<Rightarrow> int \<Rightarrow> 'a list \<Rightarrow> 'a list" where
  \<comment> \<open>the elements at the indices from \<open>(page - 1) * perPage\<close> up to, not including,
      \<open>page * perPage\<close>\<close>
  "page_slice pg pp xs =
     take (nat (pg * pp) - nat ((pg - 1) * pp)) (drop (nat ((pg - 1) * pp)) xs)"

definition month_numerals :: "string list" where
  \<comment> \<open>the integers from 1 to 12, as they are written\<close>
  "month_numerals = map (\<lambda>c. [c]) ''123456789'' @ [''10'', ''11'', ''12'']"

definition first_instant :: "int \<Rightarrow> int \<Rightarrow> int" where
  \<comment> \<open>the first instant of day 1 of month \<open>m\<close> of year \<open>y\<close>, in UTC\<close>
  "first_instant y m = days_from_civil y m 1 * msPerDay"


section \<open>A server and stores to compute with\<close>

definition utc_env :: env where
  \<comment> \<open>a server on UTC whose engines reject what the embedding does not interpret\<close>
  "utc_env = \<lparr>localTZA = 0, legacyDate = (\<lambda>s. None), storeRegex = (\<lambda>p. None)\<rparr>"

definition west_env :: env where
  \<comment> \<open>the same server in a zone five hours west of UTC\<close>
  "west_env = \<lparr>localTZA = - 18000000, legacyDate = (\<lambda>s. None), storeRegex = (\<lambda>p. None)\<rparr>"

definition march :: "int \<times> int" where
  \<comment> \<open>from 2021-03-01T00:00:00Z to 2021-04-01T00:00:00Z\<close>
  "march = (1614556800000, 1617235200000)"

definition example_store :: "transaction list" where
  \<comment> \<open>three sales of March 2021 and one of the first instant of April\<close>
  "example_store =
     [\<lparr>title = ''ABCdef'', description = ''bag'', price = Fin 5, category = ''bags'',
       sold = True, dateOfSale = 1614556800000\<rparr>,
      \<lparr>title = ''Lamp'', description = ''150 watt'', price = Fin 150,
       category = ''lights'', sold = False, dateOfSale = 1615000000000\<rparr>,
      \<lparr>title = ''Mug'', description = ''blue'', price = Fin 100, category = ''bags'',
       sold = False, dateOfSale = 1617235199999\<rparr>,
      \<lparr>title = ''Pen'', description = ''red'', price = Fin 1, category = ''pens'',
       sold = True, dateOfSale = 1617235200000\<rparr>]"

definition decimal_store :: "transaction list" where
  \<comment> \<open>three sales of March 2021, priced 0.1, 0.2 and 0.3\<close>
  "decimal_store =
     [\<lparr>title = ''Pin'', description = ''steel'', price = Number ''0.1'', category = ''pins'',
       sold = True, dateOfSale = 1614556800000\<rparr>,
      \<lparr>title = ''Clip'', description = ''steel'', price = Number ''0.2'',
       category = ''pins'', sold = True, dateOfSale = 1615000000000\<rparr>,
      \<lparr>title = ''Tack'', description = ''brass'', price = Number ''0.3'', category = ''pins'',
       sold = False, dateOfSale = 1616000000000\<rparr>]"

definition many_store :: "transaction list" where
  \<comment> \<open>twenty-five sales of March 2021\<close>
  "many_store =
     map (\<lambda>i. \<lparr>title = ''Item'', description = ''plain'', price = Fin 10, category = ''items'',
               sold = True, dateOfSale = 1614556800000 + int i\<rparr>) [0..<25]"


definition inherited_store :: "transaction list" where
  \<comment> \<open>one sale of March 2021 whose category is the name of an inherited member\<close>
  "inherited_store =
     [\<lparr>title = ''Kit'', description = ''model'', price = Fin 20, category = ''constructor'',
       sold = True, dateOfSale = 1614556800000\<rparr>]"

definition late_march_store :: "transaction list" where
  \<comment> \<open>one sale, of 2021-03-30T00:00:00Z\<close>
  "late_march_store =
     [\<lparr>title = ''Kite'', description = ''paper'', price = Fin 30, category = ''toys'',
       sold = True, dateOfSale = 1617062400000\<rparr>]"

definition succeeds :: "error + 'a \<Rightarrow> bool" where
  "succeeds r = (case r of Inl err \<Rightarrow> False | Inr v \<Rightarrow> True)"

section \<open>Properties\<close>

subsection \<open>The example server\<close>

lemma window_utc_march: "monthWindow utc_env (Some ''3'') = Inr march"
  by code_simp

lemma example_store_march:
  "filter (in_window march) example_store = take 3 example_store"
  by code_simp

subsection \<open>Rounding\<close>

lemma powi_nat: "0 \<le> k \<Longrightarrow> (2::rat) powi k = 2 ^ nat k"
  by (simp add: power_int_def)

lemma ilog2_bounds:
  assumes "0 < x"
  shows "2 powi ilog2 x \<le> x \<and> x < 2 powi (ilog2 x + 1)"
proof -
  obtain p q where pq: "quotient_of x = (p, q)" by (cases "quotient_of x")
  then have q: "0 < q" and x: "x = of_int p / of_int q"
    by (auto dest: quotient_of_denom_pos quotient_of_div)
  from assms x q have p: "0 < p" by (simp add: zero_less_divide_iff)
  define bp bq where "bp = bitlen p" and "bq = bitlen q"
  have bp1: "1 \<le> bp" and bq1: "1 \<le> bq"
    using p q bitlen_eq_zero_iff[of p] bitlen_eq_zero_iff[of q] bitlen_nonneg[of p] bitlen_nonneg[of q]
    by (auto simp: bp_def bq_def)
  have "2 ^ nat (bp - 1) \<le> p" "p < 2 ^ nat bp" "2 ^ nat (bq - 1) \<le> q" "q < 2 ^ nat bq"
    using bitlen_bounds[OF p] bitlen_bounds[OF q] by (auto simp: bp_def bq_def)
  then have "(of_int (2 ^ nat (bp - 1)) :: rat) \<le> of_int p" "(of_int p :: rat) < of_int (2 ^ nat bp)"
     "(of_int (2 ^ nat (bq - 1)) :: rat) \<le> of_int q" "(of_int q :: rat) < of_int (2 ^ nat bq)"
    by (simp_all only: of_int_le_iff of_int_less_iff)
  then have P: "(2::rat) powi (bp - 1) \<le> of_int p" "(of_int p :: rat) < 2 powi bp"
     and Q: "(2::rat) powi (bq - 1) \<le> of_int q" "(of_int q :: rat) < 2 powi bq"
    using bp1 bq1 by (simp_all add: powi_nat)
  have qpos: "(0::rat) < of_int q" using q by simp
  have ppos: "(0::rat) < of_int p" using p by simp
  define k where "k = bp - bq"
  have il: "ilog2 x = (if of_int q * 2 powi k \<le> (of_int p :: rat) then k else k - 1)"
    by (simp add: ilog2_def pq k_def bp_def bq_def Let_def)
  have split1: "(2::rat) powi bp = 2 powi (k + 1) * 2 powi (bq - 1)"
    by (simp add: k_def flip: power_int_add)
  have split2: "(2::rat) powi (bp - 1) = 2 powi (k - 1) * 2 powi bq"
    by (simp add: k_def flip: power_int_add)
  show ?thesis
  proof (cases "of_int q * 2 powi k \<le> (of_int p :: rat)")
    case True
    then have lo: "2 powi k \<le> x" using qpos by (simp add: x pos_le_divide_eq mult.commute)
    have "(of_int p :: rat) < 2 powi (k + 1) * 2 powi (bq - 1)" using P(2) split1 by simp
    also have "\<dots> \<le> 2 powi (k + 1) * of_int q"
      using Q(1) by (intro mult_left_mono) (auto simp: zero_less_power_int less_imp_le)
    finally have "x < 2 powi (k + 1)" using qpos by (simp add: x pos_divide_less_eq)
    with lo True il show ?thesis by simp
  next
    case False
    then have hi: "x < 2 powi k" using qpos by (simp add: x pos_divide_less_eq mult.commute)
    have "(2::rat) powi (k - 1) * of_int q < 2 powi (k - 1) * 2 powi bq"
      using Q(2) by (intro mult_strict_left_mono) (auto simp: zero_less_power_int)
    also have "\<dots> \<le> of_int p" using P(1) split2 by simp
    finally have "2 powi (k - 1) \<le> x" using qpos by (simp add: x pos_le_divide_eq less_imp_le)
    with hi False il show ?thesis by simp
  qed
qed

lemma ilog2_unique:
  assumes "0 < x" and "2 powi k \<le> x" and "x < 2 powi (k + 1)"
  shows "ilog2 x = k"
proof -
  from ilog2_bounds[OF assms(1)]
  have a: "2 powi ilog2 x \<le> x" and b: "x < 2 powi (ilog2 x + 1)" by auto
  have "(2::rat) powi ilog2 x < 2 powi (k + 1)" using a assms(3) by simp
  then have 1: "ilog2 x < k + 1"
    by (metis not_less power_int_increasing one_le_numeral)
  have "(2::rat) powi k < 2 powi (ilog2 x + 1)" using b assms(2) by simp
  then have 2: "k < ilog2 x + 1"
    by (metis not_less power_int_increasing one_le_numeral)
  from 1 2 show ?thesis by simp
qed

lemma round_half_even_of_int: "round_half_even (of_int n) = n"
  by (simp add: round_half_even_def)

lemma double_overflow_eq: "double_overflow = 2 ^ 1024"
  by (simp add: double_overflow_def)

lemma round_double_scaled:
  assumes "x \<noteq> 0" and "2 powi k \<le> \<bar>x\<bar>" and "\<bar>x\<bar> < 2 powi (k + 1)"
    and "x = of_int m * 2 powi (max (k - 52) (- 1074))" and "\<bar>x\<bar> < double_overflow"
  shows "round_double x = Fin x"
proof -
  have il: "ilog2 \<bar>x\<bar> = k" using assms(1-3) by (intro ilog2_unique) auto
  define e where "e = max (k - 52) (- 1074)"
  have pe: "(2::rat) powi e \<noteq> 0" by (simp add: power_int_eq_0_iff)
  have "x / 2 powi e = of_int m" using assms(4) pe by (simp add: e_def)
  then have "of_int (round_half_even (x / 2 powi e)) * 2 powi e = x"
    using assms(4) by (simp add: round_half_even_of_int e_def)
  then show ?thesis
    using assms(1,5) by (simp add: round_double_def il Let_def flip: e_def)
qed

lemma round_double_of_int:
  assumes "\<bar>n\<bar> \<le> 2 ^ 53"
  shows "round_double (of_int n) = Fin (of_int n)"
proof (cases "n = 0")
  case True
  then show ?thesis by (simp add: round_double_def)
next
  case False
  define x :: rat where "x = of_int n"
  have ax: "\<bar>x\<bar> = of_int \<bar>n\<bar>" by (simp add: x_def)
  have x1: "1 \<le> \<bar>x\<bar>" using False by (simp add: ax)
  have x53: "\<bar>x\<bar> \<le> 2 ^ 53"
  proof -
    have "(of_int \<bar>n\<bar> :: rat) \<le> of_int (2 ^ 53)" using assms by (simp only: of_int_le_iff)
    then show ?thesis by (simp add: ax)
  qed
  define E where "E = ilog2 \<bar>x\<bar>"
  have pos: "0 < \<bar>x\<bar>" using x1 by simp
  from ilog2_bounds[OF pos] have lo: "2 powi E \<le> \<bar>x\<bar>" and hi: "\<bar>x\<bar> < 2 powi (E + 1)"
    by (auto simp: E_def)
  have E0: "0 \<le> E"
  proof (rule ccontr)
    assume "\<not> 0 \<le> E"
    then have "E + 1 \<le> 0" by simp
    then have "(2::rat) powi (E + 1) \<le> 2 powi 0" by (intro power_int_increasing) auto
    with hi x1 show False by simp
  qed
  have E53: "E \<le> 53"
  proof (rule ccontr)
    assume "\<not> E \<le> 53"
    then have "54 \<le> E" by simp
    then have "(2::rat) powi 54 \<le> 2 powi E" by (intro power_int_increasing) auto
    with lo x53 show False by simp
  qed
  have ov: "\<bar>x\<bar> < double_overflow"
    using x53 by (simp add: double_overflow_def)
  have "\<exists>m. x = of_int m * 2 powi (max (E - 52) (- 1074))"
  proof (cases "E \<le> 52")
    case True
    then have m: "max (E - 52) (- 1074) = - int (nat (52 - E))" using E0 by simp
    have "(2::rat) powi (- int (nat (52 - E))) = inverse (2 ^ nat (52 - E))"
      by (simp only: power_int_minus power_int_of_nat)
    then have "x = of_int (n * 2 ^ nat (52 - E)) * 2 powi (- int (nat (52 - E)))"
      by (simp add: x_def)
    then show ?thesis unfolding m by blast
  next
    case False
    then have E: "E = 53" using E53 by simp
    then have "(2::rat) ^ 53 \<le> \<bar>x\<bar>" using lo by simp
    with x53 have "\<bar>x\<bar> = 2 ^ 53" by simp
    then have "x = 2 ^ 53 \<or> x = - (2 ^ 53)" by (auto simp: abs_if split: if_splits)
    then show ?thesis
    proof
      assume "x = 2 ^ 53"
      then have "x = of_int (2 ^ 52) * 2 powi (max (E - 52) (- 1074))" by (simp add: E)
      then show ?thesis by blast
    next
      assume "x = - (2 ^ 53)"
      then have "x = of_int (- (2 ^ 52)) * 2 powi (max (E - 52) (- 1074))" by (simp add: E)
      then show ?thesis by blast
    qed
  qed
  then obtain m where m: "x = of_int m * 2 powi (max (E - 52) (- 1074))" by blast
  have "x \<noteq> 0" using pos by auto
  from round_double_scaled[OF this lo hi m ov] show ?thesis by (simp add: x_def)
qed

lemma js_add_ints:
  "\<bar>a + b\<bar> \<le> 2 ^ 53 \<Longrightarrow> js_add (Fin (of_int a)) (Fin (of_int b)) = Fin (of_int (a + b))"
  using round_double_of_int[of "a + b"] by simp

subsection \<open>The bar chart\<close>












subsection \<open>Statistics\<close>

text \<open>
  Claim C10.  Whenever the month gives a window, the statistics request answers, and the
  number of sold items plus the number of items not sold is the number of records of the
  store whose date of sale lies in the window.
\<close>

theorem sold_and_not_sold_cover_window:
  assumes "monthWindow e month = Inr w"
  shows "\<exists>s. getStatistics e store month = Inr s
     \<and> totalSoldItems s + totalNotSoldItems s = length (filter (in_window w) store)"
proof -
  let ?ts = "filter (in_window w) store"
  have "length (filter (\<lambda>t. sold t) ?ts) + length (filter (\<lambda>t. \<not> sold t) ?ts) = length ?ts"
    by (rule sum_length_filter_compl)
  then show ?thesis
    using assms unfolding getStatistics_def Let_def by simp
qed

theorem sold_and_not_sold_cover_window_witness:
  "\<exists>s. getStatistics utc_env example_store (Some ''3'') = Inr s
     \<and> totalSoldItems s + totalNotSoldItems s = 3"
proof -
  have "length (filter (in_window march) example_store) = 3"
    by code_simp
  then show ?thesis
    using sold_and_not_sold_cover_window[OF window_utc_march, of example_store] by simp
qed

lemma fold_prices_exact:
  assumes "map price ts = map (\<lambda>n. Fin (of_int n)) ns"
    and "\<bar>a\<bar> + (\<Sum>n\<leftarrow>ns. \<bar>n\<bar>) \<le> 2 ^ 53"
  shows "foldl (\<lambda>acc t. js_add acc (price t)) (Fin (of_int a)) ts = Fin (of_int (a + sum_list ns))"
  using assms
proof (induction ts arbitrary: a ns)
  case Nil
  then show ?case by simp
next
  case (Cons t ts)
  then obtain n ns' where ns: "ns = n # ns'" and p: "price t = Fin (of_int n)"
    and rest: "map price ts = map (\<lambda>n. Fin (of_int n)) ns'"
    by (cases ns) auto
  have nonneg: "0 \<le> (\<Sum>n\<leftarrow>ns'. \<bar>n\<bar>)" by (rule sum_list_nonneg) auto
  have bound: "\<bar>a + n\<bar> + (\<Sum>n\<leftarrow>ns'. \<bar>n\<bar>) \<le> 2 ^ 53"
    using Cons.prems(2) by (simp add: ns)
  then have "\<bar>a + n\<bar> \<le> 2 ^ 53" using nonneg by linarith
  then have step: "js_add (Fin (of_int a)) (price t) = Fin (of_int (a + n))"
    by (simp only: p js_add_ints)
  show ?case
    using Cons.IH[OF rest bound] by (simp add: step ns)
qed

text \<open>
  Claim C6, as amended.  Whenever the month gives a window, the statistics request answers
  over all the records of the window, whatever a search would select: the total sale amount
  is the floating-point accumulation of their prices from 0, in the order of the store, each
  partial sum rounded to the nearest double; the number of sold items is the number of
  records with \<open>sold\<close> true, the number of items not sold the number of those with
  \<open>sold\<close> false.  When the prices are integers whose absolute values add up to at
  most \<open>2 ^ 53\<close>, no partial sum is rounded and the total is their exact sum, in any
  order of the records.
\<close>

theorem statistics_totals:
  assumes "monthWindow e month = Inr w"
  shows "\<exists>s. getStatistics e store month = Inr s
     \<and> totalSaleAmount s = foldl (\<lambda>acc t. js_add acc (price t)) (Fin 0) (filter (in_window w) store)
     \<and> totalSoldItems s = length (filter (\<lambda>t. sold t) (filter (in_window w) store))
     \<and> totalNotSoldItems s = length (filter (\<lambda>t. \<not> sold t) (filter (in_window w) store))
     \<and> (\<forall>ns. map price (filter (in_window w) store) = map (\<lambda>n. Fin (of_int n)) ns
               \<and> (\<Sum>n\<leftarrow>ns. \<bar>n\<bar>) \<le> 2 ^ 53
            \<longrightarrow> totalSaleAmount s = Fin (of_int (sum_list ns)))"
proof -
  let ?ts = "filter (in_window w) store"
  let ?s = "\<lparr>totalSaleAmount = foldl (\<lambda>acc t. js_add acc (price t)) (Fin 0) ?ts,
             totalSoldItems = length (filter (\<lambda>t. sold t) ?ts),
             totalNotSoldItems = length (filter (\<lambda>t. \<not> sold t) ?ts)\<rparr>"
  have s: "getStatistics e store month = Inr ?s"
    using assms by (simp only: getStatistics_def Let_def sum.case)
  have "foldl (\<lambda>acc t. js_add acc (price t)) (Fin 0) ?ts = Fin (of_int (sum_list ns))"
    if "map price ?ts = map (\<lambda>n. Fin (of_int n)) ns" and "(\<Sum>n\<leftarrow>ns. \<bar>n\<bar>) \<le> 2 ^ 53" for ns
    using fold_prices_exact[of ?ts ns 0] that by simp
  then show ?thesis using s by (intro exI[of _ ?s]) (simp only: statistics.simps, blast)
qed

theorem statistics_totals_witness:
  "\<exists>s. getStatistics utc_env example_store (Some ''3'') = Inr s
     \<and> totalSaleAmount s = Fin 255
     \<and> totalSoldItems s = 1
     \<and> totalNotSoldItems s = 2"
proof -
  from statistics_totals[OF window_utc_march, of example_store]
  obtain s where s: "getStatistics utc_env example_store (Some ''3'') = Inr s"
    and so: "totalSoldItems s = length (filter (\<lambda>t. sold t) (filter (in_window march) example_store))"
    and ns: "totalNotSoldItems s
               = length (filter (\<lambda>t. \<not> sold t) (filter (in_window march) example_store))"
    and ex: "\<forall>ns. map price (filter (in_window march) example_store) = map (\<lambda>n. Fin (of_int n)) ns
               \<and> (\<Sum>n\<leftarrow>ns. \<bar>n\<bar>) \<le> 2 ^ 53
            \<longrightarrow> totalSaleAmount s = Fin (of_int (sum_list ns))"
    by blast
  have p: "map price (filter (in_window march) example_store)
             = map (\<lambda>n. Fin (of_int n)) [5, 150, 100]"
    by (simp add: example_store_march) (simp add: example_store_def)
  have b: "(\<Sum>n\<leftarrow>[5, 150, 100 :: int]. \<bar>n\<bar>) \<le> 2 ^ 53"
    by simp
  from ex p b have "totalSaleAmount s = Fin (of_int (sum_list [5, 150, 100]))"
    by blast
  then have a: "totalSaleAmount s = Fin 255"
    by simp
  have c1: "length (filter (\<lambda>t. sold t) (filter (in_window march) example_store)) = 1"
    by code_simp
  have c2: "length (filter (\<lambda>t. \<not> sold t) (filter (in_window march) example_store)) = 2"
    by code_simp
  show ?thesis
    using s a so ns c1 c2 by (intro exI[of _ s]) simp
qed

text \<open>
  The same three records in two orders: the total sale amount of the prices 0.1, 0.2 and
  0.3 is 0.6000000000000001 in one order and 0.6 in the other, so it is not a function of
  the set of records.
\<close>

theorem accumulation_order_counterexample:
  "getStatistics utc_env decimal_store (Some ''3'')
      = Inr \<lparr>totalSaleAmount = Number ''0.6000000000000001'', totalSoldItems = 2,
             totalNotSoldItems = 1\<rparr>
   \<and> getStatistics utc_env (rev decimal_store) (Some ''3'')
      = Inr \<lparr>totalSaleAmount = Number ''0.6'', totalSoldItems = 2, totalNotSoldItems = 1\<rparr>
   \<and> Number ''0.6000000000000001'' \<noteq> Number ''0.6''"
  by code_simp

subsection \<open>The seed\<close>





subsection \<open>The pie chart\<close>

lemma proto_is_member: "''__proto__'' \<in> set prototype_members"
  by (simp add: prototype_members_def)

lemma count_category_plain:
  assumes "category t \<notin> set prototype_members"
    and "obj (category t) = None \<or> (\<exists>n. obj (category t) = Some (Count n))"
  shows "count_category obj t = obj(category t \<mapsto> Count (counter_nat (obj (category t)) + 1))"
proof -
  have np: "category t \<noteq> ''__proto__''" using assms(1) proto_is_member by metis
  from assms(2) show ?thesis
  proof
    assume "obj (category t) = None"
    then show ?thesis
      using assms(1) np
      by (simp add: count_category_def get_property_def truthy_def set_property_def
          increment_def counter_nat_def)
  next
    assume "\<exists>n. obj (category t) = Some (Count n)"
    then obtain n where "obj (category t) = Some (Count n)" by blast
    then show ?thesis
      using np
      by (cases "n = 0")
        (simp_all add: count_category_def get_property_def truthy_def set_property_def
          increment_def counter_nat_def)
  qed
qed

lemma pie_fold:
  assumes "\<forall>t\<in>set ts. category t \<notin> set prototype_members"
    and "\<forall>k. obj k = None \<or> (\<exists>n. obj k = Some (Count n))"
  shows "\<forall>k. foldl count_category obj ts k
           = (if k \<in> dom obj \<union> category ` set ts
              then Some (Count (counter_nat (obj k) + length (filter (\<lambda>t. category t = k) ts)))
              else None)"
  using assms
proof (induction ts arbitrary: obj)
  case Nil
  show ?case
  proof
    fix k
    from Nil(2) have "obj k = None \<or> (\<exists>n. obj k = Some (Count n))" by blast
    then show "foldl count_category obj [] k
           = (if k \<in> dom obj \<union> category ` set []
              then Some (Count (counter_nat (obj k) + length (filter (\<lambda>t. category t = k) [])))
              else None)"
      by (auto simp: counter_nat_def dom_def)
  qed
next
  case (Cons t ts)
  let ?c = "category t"
  let ?obj = "obj(?c \<mapsto> Count (counter_nat (obj ?c) + 1))"
  have step: "count_category obj t = ?obj"
    using Cons.prems by (intro count_category_plain) auto
  have a: "\<forall>t\<in>set ts. category t \<notin> set prototype_members" using Cons.prems(1) by simp
  have b: "\<forall>k. ?obj k = None \<or> (\<exists>n. ?obj k = Some (Count n))" using Cons.prems(2) by simp
  have d: "dom ?obj = insert ?c (dom obj)" by simp
  show ?case
  proof
    fix k
    from Cons.IH[OF a b] have
      "foldl count_category ?obj ts k
           = (if k \<in> dom ?obj \<union> category ` set ts
              then Some (Count (counter_nat (?obj k) + length (filter (\<lambda>t. category t = k) ts)))
              else None)" by blast
    then show "foldl count_category obj (t # ts) k
           = (if k \<in> dom obj \<union> category ` set (t # ts)
              then Some (Count (counter_nat (obj k) + length (filter (\<lambda>t. category t = k) (t # ts))))
              else None)"
      unfolding foldl_Cons step d by (auto simp: counter_nat_def)
  qed
qed

lemma pie_chart_plain_labels:
  assumes "monthWindow e month = Inr w"
    and "\<forall>t\<in>set (filter (in_window w) store). category t \<notin> set prototype_members"
  shows "\<exists>h. getPieChartData e store month = Inr h
     \<and> dom h = category ` set (filter (in_window w) store)
     \<and> (\<forall>k\<in>dom h. h k = Some (Count (length (filter (\<lambda>t. category t = k)
                                                    (filter (in_window w) store)))))"
proof -
  let ?ts = "filter (in_window w) store"
  let ?h = "foldl count_category Map.empty ?ts"
  have h: "getPieChartData e store month = Inr ?h"
    using assms(1) by (simp add: getPieChartData_def)
  have v: "\<forall>k. ?h k = (if k \<in> dom (Map.empty :: object) \<union> category ` set ?ts
              then Some (Count (counter_nat (Map.empty k) + length (filter (\<lambda>t. category t = k) ?ts)))
              else None)"
    by (rule pie_fold[OF assms(2)]) simp
  then have v': "\<forall>k. ?h k = (if k \<in> category ` set ?ts
              then Some (Count (length (filter (\<lambda>t. category t = k) ?ts))) else None)"
    by (simp add: counter_nat_def)
  then have d: "dom ?h = category ` set ?ts" by (auto simp: dom_def)
  show ?thesis using h d v' by (intro exI[of _ ?h]) (simp only: , simp)
qed

text \<open>
  Claim C8.  The pie chart is to map every category of the window to the number of its
  records.  That holds when no category is the name of a member of \<open>Object.prototype\<close>
  (\<open>pie_chart_plain_labels\<close>).  For a single record of the category
  \<open>constructor\<close> the program reads the inherited member as an existing count, does
  not start from 0, and answers NaN under that key, where the count is 1.
\<close>

theorem pie_chart_inherited_label:
  "\<exists>h. getPieChartData utc_env inherited_store (Some ''3'') = Inr h
     \<and> h ''constructor'' = Some CountNaN"
proof -
  have "getPieChartData utc_env inherited_store (Some ''3'')
          = Inr (foldl count_category Map.empty (filter (in_window march) inherited_store))"
    by (simp add: getPieChartData_def window_utc_march)
  moreover have "foldl count_category Map.empty (filter (in_window march) inherited_store)
       ''constructor'' = Some CountNaN"
    by code_simp
  ultimately show ?thesis by simp
qed

subsection \<open>Listing\<close>

lemma ceil_ratio_ceiling:
  assumes "pp \<noteq> 0"
  shows "ceil_ratio n pp = Fin (of_int \<lceil>(of_nat n :: rat) / of_int pp\<rceil>)"
proof -
  have "\<lceil>(of_nat n :: rat) / of_int pp\<rceil> = - \<lfloor>- ((of_int (int n) :: rat) / of_int pp)\<rfloor>"
    by (simp only: ceiling_def of_int_of_nat_eq)
  also have "- ((of_int (int n) :: rat) / of_int pp) = of_int (- int n) / of_int pp"
    by simp
  also have "\<lfloor>(of_int (- int n) :: rat) / of_int pp\<rfloor> = (- int n) div pp"
    by (rule floor_divide_of_int_eq)
  finally show ?thesis
    using assms by (simp add: ceil_ratio_def)
qed

lemma page_slice_pos:
  "1 \<le> pg \<Longrightarrow> 1 \<le> pp \<Longrightarrow> page_slice pg pp xs = take (nat pp) (drop (nat ((pg - 1) * pp)) xs)"
proof -
  assume a: "1 \<le> pg" "1 \<le> pp"
  have "pg * pp = (pg - 1) * pp + pp" by (simp add: algebra_simps)
  moreover have "0 \<le> (pg - 1) * pp" using a by simp
  ultimately have "nat (pg * pp) - nat ((pg - 1) * pp) = nat pp" using a by (simp add: nat_add_distrib)
  then show ?thesis by (simp add: page_slice_def)
qed

text \<open>
  Claim C5, as amended.  For a page number and a page size that are both at least 1: the
  listing answers with the matching records, in the order of the store, at the indices from
  \<open>(page - 1) * perPage\<close> up to, not including, \<open>page * perPage\<close>; with the number
  of all matching records; and with the ceiling of that number over the page size as the
  number of pages.  A page past the last one is empty, there is no error.
\<close>

theorem listing_pages:
  assumes "monthWindow e month = Inr w"
    and "find_query e (build_query w search) store = Inr matching"
    and "1 \<le> pg" and "1 \<le> pp"
  shows "\<exists>r. getTransactions e store month pg pp search = Inr r
     \<and> matching = filter (query_accepts e (build_query w search)) store
     \<and> transactions r = page_slice pg pp matching
     \<and> total r = length matching
     \<and> totalPages r = Fin (of_int \<lceil>(of_nat (length matching) :: rat) / of_int pp\<rceil>)
     \<and> (int (length matching) \<le> (pg - 1) * pp \<longrightarrow> transactions r = [])"
proof -
  let ?r = "\<lparr>transactions = take (nat pp) (drop (nat ((pg - 1) * pp)) matching),
             total = length matching, page = pg, perPage = pp,
             totalPages = ceil_ratio (length matching) pp\<rparr>"
  have sk: "skip_limit ((pg - 1) * pp) pp matching
              = Inr (take (nat pp) (drop (nat ((pg - 1) * pp)) matching))"
  proof -
    have "0 \<le> (pg - 1) * pp" using assms(3,4) by simp
    then show ?thesis using assms(4) by (simp add: skip_limit_def)
  qed
  have r: "getTransactions e store month pg pp search = Inr ?r"
    by (simp add: getTransactions_def assms(1,2) sk)
  have m: "matching = filter (query_accepts e (build_query w search)) store"
    using assms(2) by (simp add: find_query_def split: if_splits)
  have sl: "transactions ?r = page_slice pg pp matching"
    using assms(3,4) by (simp add: page_slice_pos)
  have tp: "totalPages ?r = Fin (of_int \<lceil>(of_nat (length matching) :: rat) / of_int pp\<rceil>)"
    using assms(4) by (simp add: ceil_ratio_ceiling)
  have em: "int (length matching) \<le> (pg - 1) * pp \<longrightarrow> transactions ?r = []"
    by auto
  have tt: "total ?r = length matching" by simp
  show ?thesis
    by (rule exI[of _ ?r]) (intro conjI r m sl tp em tt)
qed

lemma many_store_march: "find_query utc_env (build_query march '''') many_store = Inr many_store"
  by code_simp

theorem listing_pages_witness:
  "\<exists>r r'. getTransactions utc_env many_store (Some ''3'') 3 10 '''' = Inr r
     \<and> transactions r = drop 20 many_store
     \<and> length (transactions r) = 5
     \<and> total r = 25
     \<and> totalPages r = Fin 3
     \<and> getTransactions utc_env many_store (Some ''3'') 4 10 '''' = Inr r'
     \<and> transactions r' = []"
proof -
  have a: "(1::int) \<le> 3" and a': "(1::int) \<le> 4" and b: "(1::int) \<le> 10" by simp_all
  from listing_pages[OF window_utc_march many_store_march a b]
  obtain r where r: "getTransactions utc_env many_store (Some ''3'') 3 10 '''' = Inr r"
    and t: "transactions r = page_slice 3 10 many_store"
    and n: "total r = length many_store"
    and p: "totalPages r = Fin (of_int \<lceil>(of_nat (length many_store) :: rat) / of_int 10\<rceil>)"
    by blast
  from listing_pages[OF window_utc_march many_store_march a' b]
  obtain r' where r': "getTransactions utc_env many_store (Some ''3'') 4 10 '''' = Inr r'"
    and e: "int (length many_store) \<le> (4 - 1) * 10 \<longrightarrow> transactions r' = []"
    by blast
  have l: "length many_store = 25" by (simp add: many_store_def)
  have s: "page_slice 3 10 many_store = drop 20 many_store"
    by (simp add: page_slice_def l)
  have c: "\<lceil>(of_nat 25 :: rat) / of_int 10\<rceil> = 3" by (simp add: ceiling_eq_iff)
  have e': "transactions r' = []" using e l by simp
  show ?thesis using r t n p l s c r' e' by (intro exI[of _ r] exI[of _ r']) simp
qed

text \<open>
  With the page size 0 the store reads the limit as no limit: the first page holds all three
  matching records, where the slice from index 0 up to index 0 is empty, and the number of
  pages is infinite.
\<close>

theorem page_size_zero_counterexample:
  "getTransactions utc_env example_store (Some ''3'') 1 0 ''''
     = Inr \<lparr>transactions = take 3 example_store, total = 3, page = 1, perPage = 0,
            totalPages = PosInf\<rparr>
   \<and> find_query utc_env (build_query march '''') example_store = Inr (take 3 example_store)
   \<and> page_slice 1 0 (take 3 example_store) = []
   \<and> length (take 3 example_store) = 3"
  by code_simp

subsection \<open>The month, padded\<close>

lemma padStart2_long: "2 \<le> length m \<Longrightarrow> padStart2 m = m"
  by (simp add: padStart2_def)

lemma padStart2_idem: "padStart2 (padStart2 m) = padStart2 m"
  by (simp add: padStart2_def)

lemma digit_not_x: "digit_in 10 c \<Longrightarrow> c \<noteq> CHR ''x'' \<and> c \<noteq> CHR ''X''"
  by (auto simp: digit_in_def hex_val_def Let_def)

lemma zero_is_digit: "digit_in 10 CHR ''0''" "hex_val CHR ''0'' = Some 0" "\<not> is_space CHR ''0''"
  by (simp_all add: digit_in_def hex_val_def is_space_def)

lemma parseInt_single:
  assumes "parseInt [c] = Some n"
  shows "parseInt [CHR ''0'', c] = Some n"
proof -
  have sp: "\<not> is_space c"
    using assms by (auto simp: parseInt_def trim_start_def parse_sign_def Let_def)
  have sg: "c \<noteq> CHR ''-''" "c \<noteq> CHR ''+''"
    using assms sp by (auto simp: parseInt_def trim_start_def parse_sign_def Let_def)
  have dg: "digit_in 10 c"
    using assms sp sg
    by (auto simp: parseInt_def trim_start_def parse_sign_def Let_def split: if_splits)
  have n: "n = digits_val 10 [c]"
    using assms sp sg dg by (simp add: parseInt_def trim_start_def parse_sign_def Let_def)
  have "parseInt [CHR ''0'', c] = Some (digits_val 10 [CHR ''0'', c])"
    using dg digit_not_x[OF dg] zero_is_digit
    by (simp add: parseInt_def trim_start_def parse_sign_def Let_def)
  also have "digits_val 10 [CHR ''0'', c] = digits_val 10 [c]"
    by (simp add: digits_val_def zero_is_digit)
  finally show ?thesis using n by simp
qed

lemma valid_month_padded:
  assumes "\<not> invalid_month (Some m)"
  shows "\<not> invalid_month (Some (padStart2 m))"
proof (cases "2 \<le> length m")
  case True
  then show ?thesis using assms by (simp add: padStart2_long)
next
  case False
  moreover have "m \<noteq> []" using assms by (auto simp: invalid_month_def)
  ultimately have "length m = 1" by (cases m) (auto simp: not_le)
  then obtain c where m: "m = [c]" by (cases m) auto
  from assms obtain n where n: "parseInt [c] = Some n" "1 \<le> n" "n \<le> 12"
    by (auto simp: invalid_month_def m split: option.splits)
  have "padStart2 m = [CHR ''0'', c]" by (simp add: padStart2_def m)
  then show ?thesis using parseInt_single[OF n(1)] n by (simp add: invalid_month_def)
qed

lemma monthWindow_padded:
  assumes "\<not> invalid_month (Some m)"
  shows "monthWindow e (Some (padStart2 m)) = monthWindow e (Some m)"
  using assms valid_month_padded[OF assms] by (simp add: monthWindow_def padStart2_idem)

subsection \<open>The combined view\<close>

lemma succeedsD: "succeeds r \<Longrightarrow> \<exists>v. r = Inr v"
  by (cases r) (auto simp: succeeds_def)

lemma handlers_padded:
  assumes "\<not> invalid_month (Some m)"
  shows "getTransactions e store (Some (padStart2 m)) pg pp search
           = getTransactions e store (Some m) pg pp search"
    and "getStatistics e store (Some (padStart2 m)) = getStatistics e store (Some m)"
    and "getBarChartData e store (Some (padStart2 m)) = getBarChartData e store (Some m)"
    and "getPieChartData e store (Some (padStart2 m)) = getPieChartData e store (Some m)"
  by (simp_all only: getTransactions_def getStatistics_def getBarChartData_def
      getPieChartData_def monthWindow_padded[OF assms])

lemma invalid_month_handlers:
  assumes "invalid_month month"
  shows "getTransactions e store month pg pp search = Inl InvalidParameter"
    and "getStatistics e store month = Inl InvalidParameter"
    and "getBarChartData e store month = Inl InvalidParameter"
    and "getPieChartData e store month = Inl InvalidParameter"
    and "getCombinedData e store month search pg pp = Inl InvalidParameter"
proof -
  have w: "monthWindow e month = Inl InvalidParameter"
    using assms by (cases month) (simp_all add: monthWindow_def)
  show "getTransactions e store month pg pp search = Inl InvalidParameter"
    "getStatistics e store month = Inl InvalidParameter"
    "getBarChartData e store month = Inl InvalidParameter"
    "getPieChartData e store month = Inl InvalidParameter"
    by (simp_all add: getTransactions_def getStatistics_def getBarChartData_def
        getPieChartData_def w)
  show "getCombinedData e store month search pg pp = Inl InvalidParameter"
    using assms by (cases month) (simp_all add: getCombinedData_def)
qed

lemma combined_parts:
  "getCombinedData e store month search pg pp =
     (if invalid_month month then Inl InvalidParameter
      else case getTransactions e store month pg pp search of
             Inl err \<Rightarrow> Inl DownstreamCallFailure
           | Inr tr \<Rightarrow>
          (case getStatistics e store month of
             Inl err \<Rightarrow> Inl DownstreamCallFailure
           | Inr st \<Rightarrow>
          (case getBarChartData e store month of
             Inl err \<Rightarrow> Inl DownstreamCallFailure
           | Inr bar \<Rightarrow>
          (case getPieChartData e store month of
             Inl err \<Rightarrow> Inl DownstreamCallFailure
           | Inr pie \<Rightarrow>
               Inr \<lparr>transactionsData = tr, statisticsData = st, barChart = bar,
                    pieChart = pie\<rparr>))))"
proof (cases "invalid_month month")
  case True
  then show ?thesis by (simp add: invalid_month_handlers)
next
  case False
  then obtain m where m: "month = Some m" by (cases month) (auto simp: invalid_month_def)
  have v: "\<not> invalid_month (Some m)" using False m by simp
  show ?thesis
    unfolding m
    by (simp add: getCombinedData_def v handlers_padded[OF v] downstream_def split: sum.splits)
qed

text \<open>
  Claim C9.  Two combined requests for the same month, page and page size that both succeed
  carry the same statistics, bar chart and pie chart, whatever their search strings: each
  of these parts is what its own handler answers for the month.  The listing part is what
  the listing handler answers for the month, the page, the page size and the search string
  of the request.  When one of the four handlers fails the combined request fails, and a
  failure carries no part of a result; when the four succeed it succeeds.
\<close>

theorem combined_view:
  "(getCombinedData e store month s1 pg pp = Inr c1
      \<and> getCombinedData e store month s2 pg pp = Inr c2
    \<longrightarrow> statisticsData c1 = statisticsData c2 \<and> barChart c1 = barChart c2
        \<and> pieChart c1 = pieChart c2)
   \<and> (getCombinedData e store month s1 pg pp = Inr c1
    \<longrightarrow> getTransactions e store month pg pp s1 = Inr (transactionsData c1)
        \<and> getStatistics e store month = Inr (statisticsData c1)
        \<and> getBarChartData e store month = Inr (barChart c1)
        \<and> getPieChartData e store month = Inr (pieChart c1))
   \<and> (\<not> succeeds (getTransactions e store month pg pp s1)
        \<or> \<not> succeeds (getStatistics e store month)
        \<or> \<not> succeeds (getBarChartData e store month)
        \<or> \<not> succeeds (getPieChartData e store month)
    \<longrightarrow> \<not> succeeds (getCombinedData e store month s1 pg pp))
   \<and> (succeeds (getTransactions e store month pg pp s1)
        \<and> succeeds (getStatistics e store month)
        \<and> succeeds (getBarChartData e store month)
        \<and> succeeds (getPieChartData e store month)
    \<longrightarrow> succeeds (getCombinedData e store month s1 pg pp))"
proof -
  have parts: "getTransactions e store month pg pp s = Inr (transactionsData c)
        \<and> getStatistics e store month = Inr (statisticsData c)
        \<and> getBarChartData e store month = Inr (barChart c)
        \<and> getPieChartData e store month = Inr (pieChart c)"
    if "getCombinedData e store month s pg pp = Inr c" for s c
    using that unfolding combined_parts[of e store month s pg pp]
    by (auto split: if_splits sum.splits)
  have fails: "\<not> succeeds (getCombinedData e store month s1 pg pp)"
    if "\<not> succeeds (getTransactions e store month pg pp s1)
        \<or> \<not> succeeds (getStatistics e store month)
        \<or> \<not> succeeds (getBarChartData e store month)
        \<or> \<not> succeeds (getPieChartData e store month)"
    using that unfolding combined_parts[of e store month s1 pg pp]
    by (auto simp: succeeds_def split: sum.splits)
  have works: "succeeds (getCombinedData e store month s1 pg pp)"
    if "succeeds (getTransactions e store month pg pp s1)
        \<and> succeeds (getStatistics e store month)
        \<and> succeeds (getBarChartData e store month)
        \<and> succeeds (getPieChartData e store month)"
  proof -
    have "\<not> invalid_month month"
      using that invalid_month_handlers(2)[of month e store] by (auto simp: succeeds_def)
    then show ?thesis
      using that unfolding combined_parts[of e store month s1 pg pp]
      by (auto simp: succeeds_def split: sum.splits)
  qed
  show ?thesis
    using parts[of s1 c1] parts[of s2 c2] fails works by (intro conjI impI) auto
qed

theorem combined_view_witness:
  "\<exists>c1 c2. getCombinedData utc_env example_store (Some ''3'') ''abc'' 1 10 = Inr c1
     \<and> getCombinedData utc_env example_store (Some ''3'') ''150'' 1 10 = Inr c2
     \<and> statisticsData c1 = statisticsData c2
     \<and> barChart c1 = barChart c2
     \<and> pieChart c1 = pieChart c2
     \<and> map title (transactions (transactionsData c1)) = [''ABCdef'']
     \<and> map title (transactions (transactionsData c2)) = [''Lamp'']
     \<and> \<not> succeeds (getCombinedData utc_env example_store (Some ''3'') ''('' 1 10)"
proof -
  have parts: "succeeds (getTransactions utc_env example_store (Some ''3'') 1 10 ''abc'')"
    "succeeds (getTransactions utc_env example_store (Some ''3'') 1 10 ''150'')"
    "succeeds (getStatistics utc_env example_store (Some ''3''))"
    "succeeds (getBarChartData utc_env example_store (Some ''3''))"
    "succeeds (getPieChartData utc_env example_store (Some ''3''))"
    by code_simp+
  have "succeeds (getCombinedData utc_env example_store (Some ''3'') ''abc'' 1 10)"
    using combined_view[of utc_env example_store "Some ''3''" "''abc''" 1 10] parts by blast
  then obtain c1 where c1: "getCombinedData utc_env example_store (Some ''3'') ''abc'' 1 10 = Inr c1"
    using succeedsD by blast
  have "succeeds (getCombinedData utc_env example_store (Some ''3'') ''150'' 1 10)"
    using combined_view[of utc_env example_store "Some ''3''" "''150''" 1 10] parts by blast
  then obtain c2 where c2: "getCombinedData utc_env example_store (Some ''3'') ''150'' 1 10 = Inr c2"
    using succeedsD by blast
  note v1 = combined_view[of utc_env example_store "Some ''3''" "''abc''" 1 10 c1 "''150''" c2]
  note v2 = combined_view[of utc_env example_store "Some ''3''" "''150''" 1 10 c2 "''abc''" c1]
  note v3 = combined_view[of utc_env example_store "Some ''3''" "''(''" 1 10 c1 "''abc''" c1]
  have same: "statisticsData c1 = statisticsData c2" "barChart c1 = barChart c2"
    "pieChart c1 = pieChart c2"
    using v1 c1 c2 by blast+
  have t1: "getTransactions utc_env example_store (Some ''3'') 1 10 ''abc'' = Inr (transactionsData c1)"
    using v1 c1 by blast
  have t2: "getTransactions utc_env example_store (Some ''3'') 1 10 ''150'' = Inr (transactionsData c2)"
    using v2 c2 by blast
  have e1: "map_sum id (\<lambda>r. map title (transactions r))
              (getTransactions utc_env example_store (Some ''3'') 1 10 ''abc'') = Inr [''ABCdef'']"
    by code_simp
  have e2: "map_sum id (\<lambda>r. map title (transactions r))
              (getTransactions utc_env example_store (Some ''3'') 1 10 ''150'') = Inr [''Lamp'']"
    by code_simp
  have f: "\<not> succeeds (getTransactions utc_env example_store (Some ''3'') 1 10 ''('')"
    by code_simp
  have fails: "\<not> succeeds (getCombinedData utc_env example_store (Some ''3'') ''('' 1 10)"
    using v3 f by blast
  show ?thesis
    using c1 c2 same t1 t2 e1 e2 fails by (intro exI[of _ c1] exI[of _ c2]) simp
qed

subsection \<open>The month check\<close>

lemma month_numerals_valid: "\<forall>k\<in>set month_numerals. \<not> invalid_month (Some k)"
  by code_simp

lemma parseInt_no_number:
  assumes "m \<noteq> []" and "\<not> is_space (hd m)" and "hd m \<noteq> CHR ''+''" and "hd m \<noteq> CHR ''-''"
    and "\<not> digit_in 10 (hd m)"
  shows "parseInt m = None"
proof -
  obtain c cs where m: "m = c # cs" using assms(1) by (cases m) auto
  have nd: "\<not> digit_in 16 c \<or> c \<noteq> CHR ''0''"
    using assms(5) by (auto simp: m digit_in_def hex_val_def)
  have t: "trim_start m = m" using assms(2) by (simp add: trim_start_def m)
  have s: "parse_sign m = (False, m)" using assms(3,4) by (simp add: parse_sign_def m)
  have z: "c \<noteq> CHR ''0''" using assms(5) by (auto simp: m digit_in_def hex_val_def)
  show ?thesis
    using assms(5) z by (simp add: parseInt_def t s Let_def) (simp add: m)
qed

text \<open>
  Claim C4, as amended.  A month that is absent or empty, or in which \<open>parseInt\<close> reads
  no number or a number below 1 or above 12, makes each of the five requests fail with the
  error of the month check, whatever the store and the other parameters are; a month that
  starts with a character that is neither white space, a sign nor a digit is such a month.
  The numerals of the integers from 1 to 12 pass the check.  The check reads the leading
  integer only and does not look at what follows it.
\<close>

theorem month_check:
  "(invalid_month month \<longrightarrow>
        getTransactions e store month pg pp search = Inl InvalidParameter
      \<and> getStatistics e store month = Inl InvalidParameter
      \<and> getBarChartData e store month = Inl InvalidParameter
      \<and> getPieChartData e store month = Inl InvalidParameter
      \<and> getCombinedData e store month search pg pp = Inl InvalidParameter)
   \<and> invalid_month None
   \<and> invalid_month (Some [])
   \<and> (parseInt m = None \<longrightarrow> invalid_month (Some m))
   \<and> (\<forall>n. parseInt m = Some n \<and> (n < 1 \<or> 12 < n) \<longrightarrow> invalid_month (Some m))
   \<and> (m \<noteq> [] \<and> \<not> is_space (hd m) \<and> hd m \<noteq> CHR ''+'' \<and> hd m \<noteq> CHR ''-''
        \<and> \<not> digit_in 10 (hd m) \<longrightarrow> invalid_month (Some m))
   \<and> (\<forall>k\<in>set month_numerals.
         \<not> invalid_month (Some k) \<and> monthWindow e (Some k) \<noteq> Inl InvalidParameter)"
proof -
  have a: "invalid_month None" "invalid_month (Some [])"
    by (simp_all add: invalid_month_def)
  have b: "parseInt m = None \<longrightarrow> invalid_month (Some m)"
    by (simp add: invalid_month_def)
  have c: "\<forall>n. parseInt m = Some n \<and> (n < 1 \<or> 12 < n) \<longrightarrow> invalid_month (Some m)"
    by (auto simp: invalid_month_def)
  have d: "m \<noteq> [] \<and> \<not> is_space (hd m) \<and> hd m \<noteq> CHR ''+'' \<and> hd m \<noteq> CHR ''-''
        \<and> \<not> digit_in 10 (hd m) \<longrightarrow> invalid_month (Some m)"
    using parseInt_no_number[of m] by (auto simp: invalid_month_def)
  have w: "monthWindow e (Some k) \<noteq> Inl InvalidParameter" if "\<not> invalid_month (Some k)" for k
    using that by (simp add: monthWindow_def split: option.splits)
  have f: "\<forall>k\<in>set month_numerals.
         \<not> invalid_month (Some k) \<and> monthWindow e (Some k) \<noteq> Inl InvalidParameter"
    using month_numerals_valid w by blast
  have g: "invalid_month month \<longrightarrow>
        getTransactions e store month pg pp search = Inl InvalidParameter
      \<and> getStatistics e store month = Inl InvalidParameter
      \<and> getBarChartData e store month = Inl InvalidParameter
      \<and> getPieChartData e store month = Inl InvalidParameter
      \<and> getCombinedData e store month search pg pp = Inl InvalidParameter"
    by (simp add: invalid_month_handlers)
  show ?thesis
    by (intro conjI g a b c d f)
qed

theorem month_check_witness:
  "invalid_month (Some ''13'')
   \<and> getTransactions utc_env example_store (Some ''13'') 1 10 '''' = Inl InvalidParameter
   \<and> getStatistics utc_env example_store (Some ''13'') = Inl InvalidParameter
   \<and> getBarChartData utc_env example_store (Some ''13'') = Inl InvalidParameter
   \<and> getPieChartData utc_env example_store (Some ''13'') = Inl InvalidParameter
   \<and> getCombinedData utc_env example_store (Some ''13'') '''' 1 10 = Inl InvalidParameter
   \<and> invalid_month (Some ''abc'')
   \<and> invalid_month (Some ''x7'')
   \<and> \<not> invalid_month (Some ''7'')
   \<and> monthWindow utc_env (Some ''7'') \<noteq> Inl InvalidParameter"
proof -
  note t = month_check[of "Some ''13''" utc_env example_store 1 10 "''''" "''13''"]
  note u = month_check[of "Some ''13''" utc_env example_store 1 10 "''''" "''abc''"]
  note x = month_check[of "Some ''13''" utc_env example_store 1 10 "''''" "''x7''"]
  have n: "parseInt ''13'' = Some 13" by code_simp
  have i: "invalid_month (Some ''13'')" using t n by simp
  have "parseInt ''abc'' = None" by code_simp
  then have j: "invalid_month (Some ''abc'')" using u by blast
  have h: "''x7'' \<noteq> [] \<and> \<not> is_space (hd ''x7'') \<and> hd ''x7'' \<noteq> CHR ''+''
        \<and> hd ''x7'' \<noteq> CHR ''-'' \<and> \<not> digit_in 10 (hd ''x7'')"
    by code_simp
  have j': "invalid_month (Some ''x7'')" using x h by blast
  have k: "''7'' \<in> set month_numerals" by code_simp
  have l: "\<not> invalid_month (Some ''7'') \<and> monthWindow utc_env (Some ''7'') \<noteq> Inl InvalidParameter"
    using t k by blast
  show ?thesis using t i j j' l by blast
qed

text \<open>
  The month \<open>1.5\<close> is a number but no integer, the month \<open>5abc\<close> is no number: both
  pass the check, since \<open>parseInt\<close> reads 1 and 5, and the request fails later, on the
  invalid Date the query is given.
\<close>

theorem month_prefix_counterexample:
  "''1.5'' \<notin> set month_numerals
   \<and> \<not> invalid_month (Some ''1.5'')
   \<and> getStatistics utc_env example_store (Some ''1.5'') = Inl CastError
   \<and> isNaN (Number ''5abc'')
   \<and> \<not> invalid_month (Some ''5abc'')
   \<and> getStatistics utc_env example_store (Some ''5abc'') = Inl CastError"
  by code_simp

subsection \<open>The window of a month\<close>

lemma div_day:
  assumes "0 \<le> z" and "z < msPerDay"
  shows "(d * msPerDay + z) div msPerDay = d" and "(d * msPerDay + z) mod msPerDay = z"
  using assms by (simp_all add: msPerDay_def)

lemma getMonth_midnight:
  assumes "0 \<le> localTZA e" and "localTZA e < msPerDay"
  shows "getMonth e (d * msPerDay) = fst (snd (civil_from_days d)) - 1"
  by (simp add: getMonth_def div_day[OF assms])

lemma setMonth_midnight:
  assumes "0 \<le> localTZA e" and "localTZA e < msPerDay"
  shows "setMonth e (d * msPerDay) mo
           = (days_from_civil (fst (civil_from_days d) + mo div 12) (mo mod 12 + 1) 1
                + snd (snd (civil_from_days d)) - 1) * msPerDay"
proof -
  have "localTZA e mod msPerDay = localTZA e"
    using assms by (simp add: msPerDay_def)
  then show ?thesis
    by (simp add: setMonth_def div_day[OF assms] Let_def)
qed

lemma newDate_numerals:
  "\<forall>i<12. newDate e (''2021-'' @ padStart2 (month_numerals ! i) @ ''-01'')
             = Some (days_from_civil 2021 (int i + 1) 1 * msPerDay)"
  by code_simp

lemma first_days:
  assumes "1 \<le> k" and "k \<le> 12"
  shows "civil_from_days (days_from_civil 2021 k 1) = (2021, k, 1)"
proof -
  have "k = 1 \<or> k = 2 \<or> k = 3 \<or> k = 4 \<or> k = 5 \<or> k = 6 \<or> k = 7 \<or> k = 8 \<or> k = 9
      \<or> k = 10 \<or> k = 11 \<or> k = 12"
    using assms by presburger
  then show ?thesis
    by (elim disjE; hypsubst; code_simp)
qed

lemma month_window_east_of_utc:
  assumes "0 \<le> localTZA e" and "localTZA e < msPerDay" and "i < 12"
  shows "monthWindow e (Some (month_numerals ! i))
           = Inr (first_instant 2021 (int i + 1),
                  first_instant (2021 + (int i + 1) div 12) ((int i + 1) mod 12 + 1))"
proof -
  have v: "\<not> invalid_month (Some (month_numerals ! i))"
  proof -
    have "length month_numerals = 12" by (simp add: month_numerals_def)
    then have "month_numerals ! i \<in> set month_numerals" using assms(3) by simp
    then show ?thesis using month_numerals_valid by blast
  qed
  have n: "newDate e (''2021-'' @ padStart2 (month_numerals ! i) @ ''-01'')
             = Some (days_from_civil 2021 (int i + 1) 1 * msPerDay)"
    using newDate_numerals assms(3) by blast
  have c: "civil_from_days (days_from_civil 2021 (int i + 1) 1) = (2021, int i + 1, 1)"
    using first_days[of "int i + 1"] assms(3) by simp
  have "monthWindow e (Some (month_numerals ! i))
          = Inr (days_from_civil 2021 (int i + 1) 1 * msPerDay,
                 setMonth e (days_from_civil 2021 (int i + 1) 1 * msPerDay)
                   (getMonth e (days_from_civil 2021 (int i + 1) 1 * msPerDay) + 1))"
    using v by (simp only: monthWindow_def option.case if_False n)
  then show ?thesis
    by (simp add: getMonth_midnight[OF assms(1,2)] setMonth_midnight[OF assms(1,2)] c
        first_instant_def)
qed

text \<open>
  Claim C3.  The window of month 3 is to run from the first instant of 1 March 2021 to the
  first instant of 1 April 2021.  The start is read as midnight UTC, the end is made by
  adding a month in local time: on a server at UTC or east of it the end is the first
  instant of the next month (\<open>month_window_east_of_utc\<close>), but five hours west of UTC the
  start is the evening of 28 February in local time, and the window ends at the first
  instant of 29 March, before April begins: a sale of 30 March is counted by the server at
  UTC and missed by the server west of it.
\<close>

theorem month_window_west_of_utc:
  "monthWindow west_env (Some ''3'')
     = Inr (first_instant 2021 3, days_from_civil 2021 3 29 * msPerDay)
   \<and> days_from_civil 2021 3 29 * msPerDay < first_instant 2021 4
   \<and> map dateOfSale late_march_store = [days_from_civil 2021 3 30 * msPerDay]
   \<and> getStatistics west_env late_march_store (Some ''3'')
       = Inr \<lparr>totalSaleAmount = Fin 0, totalSoldItems = 0, totalNotSoldItems = 0\<rparr>
   \<and> getStatistics utc_env late_march_store (Some ''3'')
       = Inr \<lparr>totalSaleAmount = Fin 30, totalSoldItems = 1, totalNotSoldItems = 0\<rparr>"
  by code_simp

subsection \<open>The search\<close>








end
